theory Spec2Isabelle
  imports Complex_Main "HOL-Library.Word"
begin

section \<open>Cell values and the language primitives used by excelProcessor.js\<close>

text \<open>
  A number is NaN, +Infinity, -Infinity or a finite value, which is a rational. The
  arithmetic is that of doubles: the exact result of an operation is rounded to the
  nearest double, ties to even, and a result beyond the largest double is an infinity.
  A number read from a cell is a double; the statements below hold of every rational.
  The sign of zero is not modelled.
\<close>

datatype jsnum = NaN | Finite rat | PosInf | NegInf

text \<open>
  A cell value is one of the primitive values a parsed sheet holds. Objects (dates,
  functions) are not modelled.
\<close>

datatype jsval = JUndefined | JNull | JBool bool | JNum jsnum | JStr string

text \<open>
  A row is a record: its own enumerable properties in property order. A property that
  is absent reads as \<open>undefined\<close>; properties inherited from the prototype are not
  modelled. The keys of an object are distinct; no statement below depends on it.
\<close>

type_synonym row = "(string \<times> jsval) list"

definition Object_keys :: "row \<Rightarrow> string list" where
  "Object_keys r = map fst r"

definition get_prop :: "row \<Rightarrow> string \<Rightarrow> jsval" where
  \<comment> \<open>\<open>row[name]\<close>\<close>
  "get_prop r name = (case map_of r name of None \<Rightarrow> JUndefined | Some v \<Rightarrow> v)"

fun typeof :: "jsval \<Rightarrow> string" where
  "typeof JUndefined = ''undefined''"
| "typeof JNull = ''object''"
| "typeof (JBool _) = ''boolean''"
| "typeof (JNum _) = ''number''"
| "typeof (JStr _) = ''string''"

subsection \<open>Rounding to a double\<close>

function bit_length :: "int \<Rightarrow> int" where
  \<comment> \<open>the number of binary digits of a positive integer\<close>
  "bit_length n = (if n \<le> 0 then 0 else 1 + bit_length (n div 2))"
  by pat_completeness auto
termination
  by (relation "measure nat") auto

declare bit_length.simps [simp del]

definition pow2 :: "int \<Rightarrow> rat" where
  "pow2 e = (if 0 \<le> e then of_int (2 ^ nat e) else 1 / of_int (2 ^ nat (- e)))"

definition floor_log2 :: "rat \<Rightarrow> int" where
  \<comment> \<open>for \<open>0 < x\<close>: the exponent \<open>d\<close> with \<open>2 ^ d \<le> x < 2 ^ (d + 1)\<close>\<close>
  "floor_log2 x =
     (let d = bit_length (fst (quotient_of x)) - bit_length (snd (quotient_of x))
      in if pow2 d \<le> x then d else d - 1)"

definition round_half_even :: "rat \<Rightarrow> int" where
  "round_half_even y =
     (let f = \<lfloor>y\<rfloor>; d = y - of_int f
      in if d < 1 / 2 then f else if 1 / 2 < d then f + 1 else if even f then f else f + 1)"

definition round_double :: "rat \<Rightarrow> jsnum" where
  \<comment> \<open>53 significant bits, exponents from -1022 (below that, multiples of \<open>2 ^ -1074\<close>)
      to 1023\<close>
  "round_double x =
     (if x = 0 then Finite 0
      else
        let a = \<bar>x\<bar>;
            e = max (floor_log2 a) (- 1022);
            q = pow2 (e - 52);
            m = round_half_even (a / q)
        in if 1023 < e \<or> (e = 1023 \<and> m = 9007199254740992)
           then (if 0 < x then PosInf else NegInf)
           else Finite (if 0 < x then of_int m * q else - (of_int m * q)))"

subsection \<open>Arithmetic on numbers\<close>

fun js_add :: "jsnum \<Rightarrow> jsnum \<Rightarrow> jsnum" where
  "js_add NaN _ = NaN"
| "js_add _ NaN = NaN"
| "js_add PosInf NegInf = NaN"
| "js_add NegInf PosInf = NaN"
| "js_add PosInf _ = PosInf"
| "js_add _ PosInf = PosInf"
| "js_add NegInf _ = NegInf"
| "js_add _ NegInf = NegInf"
| "js_add (Finite a) (Finite b) = round_double (a + b)"

fun js_div :: "jsnum \<Rightarrow> jsnum \<Rightarrow> jsnum" where
  "js_div NaN _ = NaN"
| "js_div _ NaN = NaN"
| "js_div PosInf PosInf = NaN"
| "js_div PosInf NegInf = NaN"
| "js_div NegInf PosInf = NaN"
| "js_div NegInf NegInf = NaN"
| "js_div PosInf (Finite b) = (if b < 0 then NegInf else PosInf)"
| "js_div NegInf (Finite b) = (if b < 0 then PosInf else NegInf)"
| "js_div (Finite a) PosInf = Finite 0"
| "js_div (Finite a) NegInf = Finite 0"
| "js_div (Finite a) (Finite b) =
     (if b = 0 then (if a = 0 then NaN else if 0 < a then PosInf else NegInf)
      else round_double (a / b))"

fun js_neg :: "jsnum \<Rightarrow> jsnum" where
  "js_neg NaN = NaN"
| "js_neg (Finite a) = Finite (- a)"
| "js_neg PosInf = NegInf"
| "js_neg NegInf = PosInf"

fun js_lt :: "jsnum \<Rightarrow> jsnum \<Rightarrow> bool" where
  \<comment> \<open>\<open>a < b\<close>: every comparison with NaN is false\<close>
  "js_lt NaN _ = False"
| "js_lt _ NaN = False"
| "js_lt (Finite a) (Finite b) = (a < b)"
| "js_lt NegInf NegInf = False"
| "js_lt NegInf _ = True"
| "js_lt _ NegInf = False"
| "js_lt PosInf _ = False"
| "js_lt _ PosInf = True"

fun js_le :: "jsnum \<Rightarrow> jsnum \<Rightarrow> bool" where
  \<comment> \<open>\<open>a <= b\<close>\<close>
  "js_le NaN _ = False"
| "js_le _ NaN = False"
| "js_le (Finite a) (Finite b) = (a \<le> b)"
| "js_le NegInf _ = True"
| "js_le _ PosInf = True"
| "js_le PosInf _ = False"
| "js_le _ NegInf = False"

definition is_nan :: "jsnum \<Rightarrow> bool" where
  "is_nan x = (case x of NaN \<Rightarrow> True | _ \<Rightarrow> False)"

definition Math_min :: "jsnum list \<Rightarrow> jsnum" where
  \<comment> \<open>\<open>Math.min\<close> on the arguments \<open>xs\<close>, once the call is made: NaN if an argument is NaN,
      else the lowest, starting from +Infinity\<close>
  "Math_min xs =
     (if list_ex is_nan xs then NaN
      else foldl (\<lambda>lowest x. if js_lt x lowest then x else lowest) PosInf xs)"

definition Math_max :: "jsnum list \<Rightarrow> jsnum" where
  \<comment> \<open>\<open>Math.max\<close> on the arguments \<open>xs\<close>, once the call is made: NaN if an argument is NaN,
      else the highest, starting from -Infinity\<close>
  "Math_max xs =
     (if list_ex is_nan xs then NaN
      else foldl (\<lambda>highest x. if js_lt highest x then x else highest) NegInf xs)"

subsection \<open>Conversion of a string to a number\<close>

text \<open>
  The grammar of a string numeric literal: surrounding white space is dropped, the empty
  string is zero, and what remains is a signed decimal literal (with optional fraction
  and exponent), \<open>Infinity\<close> with an optional sign, or an unsigned binary, octal or
  hexadecimal integer. Anything else is NaN. The value of a literal is rounded to a
  double. Characters are code units below 256.
\<close>

definition StrWhiteSpaceChar :: "char \<Rightarrow> bool" where
  "StrWhiteSpaceChar c =
     (c \<in> set [CHR 0x09, CHR 0x0A, CHR 0x0B, CHR 0x0C, CHR 0x0D, CHR 0x20, CHR 0xA0])"

definition trim_ws :: "string \<Rightarrow> string" where
  "trim_ws s = rev (dropWhile StrWhiteSpaceChar (rev (dropWhile StrWhiteSpaceChar s)))"

definition digit_value :: "char \<Rightarrow> nat option" where
  "digit_value c =
     (let n = (of_char c :: nat) in
      if 48 \<le> n \<and> n \<le> 57 then Some (n - 48)
      else if 97 \<le> n \<and> n \<le> 102 then Some (n - 87)
      else if 65 \<le> n \<and> n \<le> 70 then Some (n - 55)
      else None)"

definition is_digit_in :: "nat \<Rightarrow> char \<Rightarrow> bool" where
  "is_digit_in base c = (case digit_value c of None \<Rightarrow> False | Some d \<Rightarrow> d < base)"

definition digits_to_nat :: "nat \<Rightarrow> string \<Rightarrow> nat" where
  "digits_to_nat base ds =
     foldl (\<lambda>acc c. case digit_value c of None \<Rightarrow> acc | Some d \<Rightarrow> acc * base + d) 0 ds"

definition all_digits :: "nat \<Rightarrow> string \<Rightarrow> bool" where
  "all_digits base ds = (ds \<noteq> [] \<and> list_all (is_digit_in base) ds)"

definition NonDecimalIntegerLiteral :: "nat \<Rightarrow> string \<Rightarrow> jsnum" where
  "NonDecimalIntegerLiteral base ds =
     (if all_digits base ds then round_double (of_nat (digits_to_nat base ds)) else NaN)"

definition SignedInteger :: "string \<Rightarrow> int option" where
  "SignedInteger s =
     (case s of
        [] \<Rightarrow> None
      | c # r \<Rightarrow>
          if c = CHR ''+'' then (if all_digits 10 r then Some (int (digits_to_nat 10 r)) else None)
          else if c = CHR ''-'' then
            (if all_digits 10 r then Some (- int (digits_to_nat 10 r)) else None)
          else (if all_digits 10 s then Some (int (digits_to_nat 10 s)) else None))"

definition ExponentPart_opt :: "string \<Rightarrow> int option" where
  \<comment> \<open>the empty rest is exponent 0; otherwise \<open>e\<close> or \<open>E\<close> and a signed integer\<close>
  "ExponentPart_opt s =
     (case s of
        [] \<Rightarrow> Some 0
      | c # r \<Rightarrow> if c = CHR ''e'' \<or> c = CHR ''E'' then SignedInteger r else None)"

definition pow10 :: "int \<Rightarrow> rat" where
  "pow10 e = (if 0 \<le> e then 10 ^ nat e else 1 / 10 ^ nat (- e))"

definition StrUnsignedDecimalLiteral :: "string \<Rightarrow> jsnum" where
  "StrUnsignedDecimalLiteral s =
     (if s = ''Infinity'' then PosInf
      else
        let ip = takeWhile (is_digit_in 10) s;
            r1 = dropWhile (is_digit_in 10) s;
            has_dot = (case r1 of [] \<Rightarrow> False | c # _ \<Rightarrow> c = CHR ''.'');
            r2 = (if has_dot then drop 1 r1 else r1);
            fp = (if has_dot then takeWhile (is_digit_in 10) r2 else []);
            r3 = (if has_dot then dropWhile (is_digit_in 10) r2 else r2)
        in if ip = [] \<and> fp = [] then NaN
           else (case ExponentPart_opt r3 of
                   None \<Rightarrow> NaN
                 | Some e \<Rightarrow>
                     round_double ((of_nat (digits_to_nat 10 ip)
                                    + of_nat (digits_to_nat 10 fp) / 10 ^ length fp) * pow10 e)))"

definition StrDecimalLiteral :: "string \<Rightarrow> jsnum" where
  "StrDecimalLiteral s =
     (case s of
        [] \<Rightarrow> NaN
      | c # r \<Rightarrow>
          if c = CHR ''+'' then StrUnsignedDecimalLiteral r
          else if c = CHR ''-'' then js_neg (StrUnsignedDecimalLiteral r)
          else StrUnsignedDecimalLiteral s)"

definition StrNumericLiteral :: "string \<Rightarrow> jsnum" where
  "StrNumericLiteral s =
     (case s of
        c0 # c1 # r \<Rightarrow>
          if c0 = CHR ''0'' \<and> (c1 = CHR ''x'' \<or> c1 = CHR ''X'') then NonDecimalIntegerLiteral 16 r
          else if c0 = CHR ''0'' \<and> (c1 = CHR ''o'' \<or> c1 = CHR ''O'') then NonDecimalIntegerLiteral 8 r
          else if c0 = CHR ''0'' \<and> (c1 = CHR ''b'' \<or> c1 = CHR ''B'') then NonDecimalIntegerLiteral 2 r
          else StrDecimalLiteral s
      | _ \<Rightarrow> StrDecimalLiteral s)"

definition StringToNumber :: "string \<Rightarrow> jsnum" where
  "StringToNumber s = (let t = trim_ws s in if t = [] then Finite 0 else StrNumericLiteral t)"

fun ToNumber :: "jsval \<Rightarrow> jsnum" where
  "ToNumber JUndefined = NaN"
| "ToNumber JNull = Finite 0"
| "ToNumber (JBool b) = (if b then Finite 1 else Finite 0)"
| "ToNumber (JNum n) = n"
| "ToNumber (JStr s) = StringToNumber s"

definition isNaN :: "jsval \<Rightarrow> bool" where
  \<comment> \<open>the global \<open>isNaN\<close>: coerce, then test\<close>
  "isNaN v = is_nan (ToNumber v)"

definition Number :: "jsval \<Rightarrow> jsnum" where
  "Number v = ToNumber v"

definition Set_values :: "jsval list \<Rightarrow> jsval list" where
  \<comment> \<open>\<open>[...new Set(vs)]\<close>: each value once, in order of first insertion\<close>
  "Set_values vs = foldl (\<lambda>acc v. if v \<in> set acc then acc else acc @ [v]) [] vs"

section \<open>getColumnStatistics\<close>

record numeric_stats =
  min_n :: jsnum
  max_n :: jsnum
  average :: jsnum
  sum_n :: jsnum
  count_n :: nat

record categorical_stats =
  uniqueValues :: "jsval list"
  count_c :: nat
  type_c :: string

text \<open>The result is \<open>null\<close> (None), the numeric record or the categorical record.\<close>

datatype stats = Numeric numeric_stats | Categorical categorical_stats

definition column_values :: "row list \<Rightarrow> string \<Rightarrow> jsval list" where
  \<comment> \<open>\<open>data.map(row => row[columnName]).filter(val => val !== undefined)\<close>\<close>
  "column_values data columnName =
     filter (\<lambda>val. val \<noteq> JUndefined) (map (\<lambda>row. get_prop row columnName) data)"

definition getColumnStatistics :: "row list \<Rightarrow> string \<Rightarrow> stats option" where
  "getColumnStatistics data columnName =
     (let values = column_values data columnName in
      if length values = 0 then None
      else
        let isNumeric = list_all (\<lambda>val. \<not> isNaN val) values in
        if isNumeric then
          (let numbers = map Number values in
           Some (Numeric
             \<lparr> min_n = Math_min numbers,
               max_n = Math_max numbers,
               average = js_div (foldl js_add (Finite 0) numbers) (Finite (of_nat (length numbers))),
               sum_n = foldl js_add (Finite 0) numbers,
               count_n = length numbers \<rparr>))
        else
          Some (Categorical
            \<lparr> uniqueValues = Set_values values,
              count_c = length values,
              type_c = ''categorical'' \<rparr>))"

text \<open>
  The language sets no bound on the number of arguments of a call, but an engine does: a
  spread call \<open>f(...args)\<close> with more arguments than the engine accepts raises
  RangeError. \<open>getColumnStatistics\<close> above is the result when both spread calls are
  accepted; \<open>getColumnStatistics_engine\<close> is the same function on an engine that accepts
  at most \<open>max_args\<close> arguments.
\<close>

datatype error = RangeError

definition spread_call :: "nat \<Rightarrow> (jsnum list \<Rightarrow> jsnum) \<Rightarrow> jsnum list \<Rightarrow> error + jsnum" where
  \<comment> \<open>\<open>f(...args)\<close>\<close>
  "spread_call max_args f args = (if max_args < length args then Inl RangeError else Inr (f args))"

definition getColumnStatistics_engine :: "nat \<Rightarrow> row list \<Rightarrow> string \<Rightarrow> error + stats option" where
  "getColumnStatistics_engine max_args data columnName =
     (let values = column_values data columnName in
      if length values = 0 then Inr None
      else
        let isNumeric = list_all (\<lambda>val. \<not> isNaN val) values in
        if isNumeric then
          (let numbers = map Number values in
           case spread_call max_args Math_min numbers of
             Inl e \<Rightarrow> Inl e
           | Inr lowest \<Rightarrow>
               (case spread_call max_args Math_max numbers of
                  Inl e \<Rightarrow> Inl e
                | Inr highest \<Rightarrow>
                    Inr (Some (Numeric
                      \<lparr> min_n = lowest,
                        max_n = highest,
                        average = js_div (foldl js_add (Finite 0) numbers)
                                    (Finite (of_nat (length numbers))),
                        sum_n = foldl js_add (Finite 0) numbers,
                        count_n = length numbers \<rparr>))))
        else
          Inr (Some (Categorical
            \<lparr> uniqueValues = Set_values values,
              count_c = length values,
              type_c = ''categorical'' \<rparr>)))"

section \<open>validateExcelData\<close>

record validations =
  hasData :: bool
  hasHeaders :: bool
  isConsistent :: bool

definition first_or_empty :: "row list \<Rightarrow> row" where
  \<comment> \<open>\<open>rows[0] || {}\<close>: a row is an object, hence truthy\<close>
  "first_or_empty rows = (case rows of [] \<Rightarrow> [] | r # _ \<Rightarrow> r)"

definition validateExcelData :: "row list \<Rightarrow> validations" where
  "validateExcelData data =
     (let validations =
            \<lparr> hasData = (length data > 0),
              hasHeaders = (length (Object_keys (first_or_empty data)) > 0),
              isConsistent = True \<rparr>
      in if length data > 1 then
           (case data of
              [] \<Rightarrow> validations
            | r0 # _ \<Rightarrow>
                (let firstRowKeys = Object_keys r0
                 in validations
                      \<lparr> isConsistent :=
                          list_all (\<lambda>row. length (Object_keys row) = length firstRowKeys) data \<rparr>))
         else validations)"

section \<open>processExcelFile\<close>

text \<open>
  The spreadsheet library is outside the repository, so its two entry points are
  parameters: \<open>xlsx_read\<close> parses the bytes into a workbook and \<open>sheet_to_json\<close> turns
  a worksheet (\<open>undefined\<close>, here None, when the name has no entry) into rows. Either
  may throw an error, which is the left injection carrying the error's message.
\<close>

type_synonym byte = "8 word"

record 'ws workbook =
  SheetNames :: "string list"
  Sheets :: "string \<rightharpoonup> 'ws"

record normalized_sheet =
  sheetName :: string
  headers :: "string list"
  columnTypes :: "string \<rightharpoonup> string"
  data :: "row list"
  rowCount :: nat
  columnCount :: nat

text \<open>
  The two shapes of the result: \<open>{success: true, data, totalSheets}\<close> and
  \<open>{success: false, error}\<close>.
\<close>

datatype process_result = Success "normalized_sheet list" nat | Failure string

definition sample_value :: "row list \<Rightarrow> string \<Rightarrow> jsval" where
  \<comment> \<open>\<open>jsonData[0]?.[header]\<close>\<close>
  "sample_value jsonData header =
     (case jsonData of [] \<Rightarrow> JUndefined | r # _ \<Rightarrow> get_prop r header)"

definition process_sheet :: "string \<Rightarrow> row list \<Rightarrow> normalized_sheet" where
  \<comment> \<open>the body of the callback mapped over the sheet names, after the conversion to rows\<close>
  "process_sheet name jsonData =
     (let hs = Object_keys (first_or_empty jsonData);
          types = foldl (\<lambda>acc header. acc(header \<mapsto> typeof (sample_value jsonData header)))
                    Map.empty hs
      in \<lparr> sheetName = name,
           headers = hs,
           columnTypes = types,
           data = jsonData,
           rowCount = length jsonData,
           columnCount = length hs \<rparr>)"

fun map_sheets ::
  "('ws option \<Rightarrow> string + row list) \<Rightarrow> (string \<rightharpoonup> 'ws) \<Rightarrow> string list
     \<Rightarrow> string + normalized_sheet list" where
  "map_sheets sheet_to_json sheets [] = Inr []"
| "map_sheets sheet_to_json sheets (name # names) =
     (case sheet_to_json (sheets name) of
        Inl message \<Rightarrow> Inl message
      | Inr jsonData \<Rightarrow>
          (case map_sheets sheet_to_json sheets names of
             Inl message \<Rightarrow> Inl message
           | Inr rest \<Rightarrow> Inr (process_sheet name jsonData # rest)))"

definition processExcelFile ::
  "(byte list \<Rightarrow> string + 'ws workbook) \<Rightarrow> ('ws option \<Rightarrow> string + row list) \<Rightarrow> byte list
     \<Rightarrow> process_result" where
  "processExcelFile xlsx_read sheet_to_json buffer =
     (case xlsx_read buffer of
        Inl message \<Rightarrow> Failure message
      | Inr workbook \<Rightarrow>
          (case map_sheets sheet_to_json (Sheets workbook) (SheetNames workbook) of
             Inl message \<Rightarrow> Failure message
           | Inr processedData \<Rightarrow> Success processedData (length (SheetNames workbook))))"

section \<open>Auxiliary notions for the statements\<close>

definition is_numeric_result :: "stats option \<Rightarrow> bool" where
  "is_numeric_result res = (case res of Some (Numeric _) \<Rightarrow> True | _ \<Rightarrow> False)"

definition is_categorical_result :: "stats option \<Rightarrow> bool" where
  "is_categorical_result res = (case res of Some (Categorical _) \<Rightarrow> True | _ \<Rightarrow> False)"

text \<open>
  A stand-in for the spreadsheet library, used to run \<open>processExcelFile\<close> on concrete
  inputs: one buffer parses to a workbook of three sheets, one to a workbook without
  sheets, and every other buffer is rejected.
\<close>

definition sample_read :: "byte list \<Rightarrow> string + nat workbook" where
  "sample_read buffer =
     (if buffer = [0x50, 0x4B]
      then Inr \<lparr> SheetNames = [''People'', ''Empty'', ''Copy''],
                 Sheets = [''People'' \<mapsto> 0, ''Empty'' \<mapsto> 1, ''Copy'' \<mapsto> 2] \<rparr>
      else if buffer = [0x00] then Inr \<lparr> SheetNames = [], Sheets = Map.empty \<rparr>
      else Inl ''File is corrupted'')"

definition sample_sheet_to_json :: "nat option \<Rightarrow> string + row list" where
  "sample_sheet_to_json ws =
     (case ws of
        None \<Rightarrow> Inr []
      | Some k \<Rightarrow>
          if k = 0 then
            Inr [[(''name'', JStr ''Ann''), (''age'', JNum (Finite 30))], [(''name'', JStr ''Bob'')]]
          else if k = 2 then
            Inr [[(''name'', JStr ''Ann''), (''age'', JNum (Finite 30))],
                 [(''name'', JNum (Finite 7)), (''age'', JStr ''unknown''), (''x'', JBool True)]]
          else Inr [])"

definition sample_people :: normalized_sheet where
  "sample_people =
     \<lparr> sheetName = ''People'',
       headers = [''name'', ''age''],
       columnTypes = [''name'' \<mapsto> ''string'', ''age'' \<mapsto> ''number''],
       data = [[(''name'', JStr ''Ann''), (''age'', JNum (Finite 30))], [(''name'', JStr ''Bob'')]],
       rowCount = 2,
       columnCount = 2 \<rparr>"

definition sample_empty :: normalized_sheet where
  "sample_empty =
     \<lparr> sheetName = ''Empty'', headers = [], columnTypes = Map.empty, data = [],
       rowCount = 0, columnCount = 0 \<rparr>"

definition sample_copy :: normalized_sheet where
  "sample_copy =
     \<lparr> sheetName = ''Copy'',
       headers = [''name'', ''age''],
       columnTypes = [''name'' \<mapsto> ''string'', ''age'' \<mapsto> ''number''],
       data = [[(''name'', JStr ''Ann''), (''age'', JNum (Finite 30))],
               [(''name'', JNum (Finite 7)), (''age'', JStr ''unknown''), (''x'', JBool True)]],
       rowCount = 2,
       columnCount = 2 \<rparr>"

section \<open>Properties of the primitives\<close>


lemma round_double_examples:
  "round_double (1 / 10) = Finite (3602879701896397 / 36028797018963968)"
  "round_double (- (7 / 10)) = Finite (- (3152519739159347 / 4503599627370496))"
  "round_double 9007199254740993 = Finite 9007199254740992"
  "round_double 9007199254740995 = Finite 9007199254740996"
  "round_double (5 / 2) = Finite (5 / 2)"
  by code_simp+

lemma js_lt_le: "js_lt x y \<Longrightarrow> js_le x y"
  by (cases x; cases y) auto

lemma js_not_lt_le: "\<not> is_nan x \<Longrightarrow> \<not> is_nan y \<Longrightarrow> \<not> js_lt x y \<Longrightarrow> js_le y x"
  by (cases x; cases y) (auto simp: is_nan_def)

lemma js_le_trans: "js_le x y \<Longrightarrow> js_le y z \<Longrightarrow> js_le x z"
  by (cases x; cases y; cases z) auto

lemma js_le_refl: "\<not> is_nan x \<Longrightarrow> js_le x x"
  by (cases x) (auto simp: is_nan_def)

lemma js_le_not_nan: "js_le x y \<Longrightarrow> \<not> is_nan x \<and> \<not> is_nan y"
  by (cases x; cases y) (auto simp: is_nan_def)

lemma PosInf_le: "js_le PosInf x \<Longrightarrow> x = PosInf"
  by (cases x) auto

lemma le_NegInf: "js_le x NegInf \<Longrightarrow> x = NegInf"
  by (cases x) auto

lemma lowest_fold:
  "\<not> is_nan acc \<Longrightarrow> \<not> list_ex is_nan xs \<Longrightarrow>
   foldl (\<lambda>lowest x. if js_lt x lowest then x else lowest) acc xs \<in> insert acc (set xs)
   \<and> js_le (foldl (\<lambda>lowest x. if js_lt x lowest then x else lowest) acc xs) acc
   \<and> list_all (js_le (foldl (\<lambda>lowest x. if js_lt x lowest then x else lowest) acc xs)) xs"
proof (induction xs arbitrary: acc)
  case Nil
  then show ?case by (simp add: js_le_refl)
next
  case (Cons x xs)
  let ?f = "\<lambda>lowest x. if js_lt x lowest then x else lowest"
  let ?a = "?f acc x"
  from Cons.prems have nx: "\<not> is_nan x" and nxs: "\<not> list_ex is_nan xs" by simp_all
  have na: "\<not> is_nan ?a" using Cons.prems(1) nx by simp
  have a_acc: "js_le ?a acc" using Cons.prems(1) by (simp add: js_lt_le js_le_refl)
  have a_x: "js_le ?a x" using Cons.prems(1) nx by (simp add: js_not_lt_le js_le_refl)
  from Cons.IH [OF na nxs]
  have m: "foldl ?f ?a xs \<in> insert ?a (set xs)"
    and le: "js_le (foldl ?f ?a xs) ?a"
    and all: "list_all (js_le (foldl ?f ?a xs)) xs" by blast+
  have "foldl ?f acc (x # xs) = foldl ?f ?a xs" by simp
  moreover have "foldl ?f ?a xs \<in> insert acc (set (x # xs))" using m by auto
  moreover have "js_le (foldl ?f ?a xs) acc" using le a_acc by (rule js_le_trans)
  moreover have "js_le (foldl ?f ?a xs) x" using le a_x by (rule js_le_trans)
  ultimately show ?case using all by simp
qed

lemma Math_min_least:
  assumes "xs \<noteq> []" and "\<not> list_ex is_nan xs"
  shows "Math_min xs \<in> set xs \<and> list_all (js_le (Math_min xs)) xs"
proof -
  let ?f = "\<lambda>lowest x. if js_lt x lowest then x else lowest"
  have eq: "Math_min xs = foldl ?f PosInf xs" using assms(2) by (simp add: Math_min_def)
  have "\<not> is_nan PosInf" by (simp add: is_nan_def)
  from lowest_fold [OF this assms(2)]
  have m: "foldl ?f PosInf xs \<in> insert PosInf (set xs)"
    and all: "list_all (js_le (foldl ?f PosInf xs)) xs" by blast+
  have "foldl ?f PosInf xs \<in> set xs"
  proof (cases "foldl ?f PosInf xs = PosInf")
    case True
    obtain y where y: "y \<in> set xs" using assms(1) by (cases xs) auto
    with all True have "js_le PosInf y" by (simp add: list_all_iff)
    then have "y = PosInf" by (rule PosInf_le)
    with y True show ?thesis by simp
  next
    case False
    with m show ?thesis by simp
  qed
  with all eq show ?thesis by simp
qed

lemma highest_fold:
  "\<not> is_nan acc \<Longrightarrow> \<not> list_ex is_nan xs \<Longrightarrow>
   foldl (\<lambda>highest x. if js_lt highest x then x else highest) acc xs \<in> insert acc (set xs)
   \<and> js_le acc (foldl (\<lambda>highest x. if js_lt highest x then x else highest) acc xs)
   \<and> list_all (\<lambda>x. js_le x (foldl (\<lambda>highest x. if js_lt highest x then x else highest) acc xs)) xs"
proof (induction xs arbitrary: acc)
  case Nil
  then show ?case by (simp add: js_le_refl)
next
  case (Cons x xs)
  let ?f = "\<lambda>highest x. if js_lt highest x then x else highest"
  let ?a = "?f acc x"
  from Cons.prems have nx: "\<not> is_nan x" and nxs: "\<not> list_ex is_nan xs" by simp_all
  have na: "\<not> is_nan ?a" using Cons.prems(1) nx by simp
  have a_acc: "js_le acc ?a" using Cons.prems(1) by (simp add: js_lt_le js_le_refl)
  have a_x: "js_le x ?a" using Cons.prems(1) nx by (simp add: js_not_lt_le js_le_refl)
  from Cons.IH [OF na nxs]
  have m: "foldl ?f ?a xs \<in> insert ?a (set xs)"
    and le: "js_le ?a (foldl ?f ?a xs)"
    and all: "list_all (\<lambda>x. js_le x (foldl ?f ?a xs)) xs" by blast+
  have "foldl ?f acc (x # xs) = foldl ?f ?a xs" by simp
  moreover have "foldl ?f ?a xs \<in> insert acc (set (x # xs))" using m by auto
  moreover have "js_le acc (foldl ?f ?a xs)" using a_acc le by (rule js_le_trans)
  moreover have "js_le x (foldl ?f ?a xs)" using a_x le by (rule js_le_trans)
  ultimately show ?case using all by simp
qed

lemma Math_max_greatest:
  assumes "xs \<noteq> []" and "\<not> list_ex is_nan xs"
  shows "Math_max xs \<in> set xs \<and> list_all (\<lambda>x. js_le x (Math_max xs)) xs"
proof -
  let ?f = "\<lambda>highest x. if js_lt highest x then x else highest"
  have eq: "Math_max xs = foldl ?f NegInf xs" using assms(2) by (simp add: Math_max_def)
  have "\<not> is_nan NegInf" by (simp add: is_nan_def)
  from highest_fold [OF this assms(2)]
  have m: "foldl ?f NegInf xs \<in> insert NegInf (set xs)"
    and all: "list_all (\<lambda>x. js_le x (foldl ?f NegInf xs)) xs" by blast+
  have "foldl ?f NegInf xs \<in> set xs"
  proof (cases "foldl ?f NegInf xs = NegInf")
    case True
    obtain y where y: "y \<in> set xs" using assms(1) by (cases xs) auto
    with all True have "js_le y NegInf" by (simp add: list_all_iff)
    then have "y = NegInf" by (rule le_NegInf)
    with y True show ?thesis by simp
  next
    case False
    with m show ?thesis by simp
  qed
  with all eq show ?thesis by simp
qed

lemma numbers_not_nan:
  "list_all (\<lambda>val. \<not> isNaN val) vs \<Longrightarrow> \<not> list_ex is_nan (map Number vs)"
  by (induction vs) (auto simp: isNaN_def Number_def)

lemma Set_values_fold:
  "distinct acc \<Longrightarrow>
   distinct (foldl (\<lambda>acc v. if v \<in> set acc then acc else acc @ [v]) acc vs)
   \<and> set (foldl (\<lambda>acc v. if v \<in> set acc then acc else acc @ [v]) acc vs) = set acc \<union> set vs"
  by (induction vs arbitrary: acc) auto

lemma Set_values_distinct: "distinct (Set_values vs)"
  using Set_values_fold [of "[]" vs] by (simp add: Set_values_def)

lemma Set_values_set: "set (Set_values vs) = set vs"
  using Set_values_fold [of "[]" vs] by (simp add: Set_values_def)

lemma not_all_coercible: "(\<not> list_all (\<lambda>val. \<not> isNaN val) vs) = list_ex isNaN vs"
  by (induction vs) auto

lemma stats_null: "column_values rows h = [] \<Longrightarrow> getColumnStatistics rows h = None"
  by (simp add: getColumnStatistics_def)

lemma stats_numeric:
  "column_values rows h \<noteq> [] \<Longrightarrow> list_all (\<lambda>val. \<not> isNaN val) (column_values rows h) \<Longrightarrow>
   getColumnStatistics rows h =
     Some (Numeric
       \<lparr> min_n = Math_min (map Number (column_values rows h)),
         max_n = Math_max (map Number (column_values rows h)),
         average = js_div (foldl js_add (Finite 0) (map Number (column_values rows h)))
                     (Finite (of_nat (length (column_values rows h)))),
         sum_n = foldl js_add (Finite 0) (map Number (column_values rows h)),
         count_n = length (column_values rows h) \<rparr>)"
  by (simp add: getColumnStatistics_def Let_def)

lemma stats_categorical:
  "list_ex isNaN (column_values rows h) \<Longrightarrow>
   getColumnStatistics rows h =
     Some (Categorical
       \<lparr> uniqueValues = Set_values (column_values rows h),
         count_c = length (column_values rows h),
         type_c = ''categorical'' \<rparr>)"
proof -
  assume a: "list_ex isNaN (column_values rows h)"
  then have ne: "column_values rows h \<noteq> []" by auto
  from a have "\<not> list_all (\<lambda>val. \<not> isNaN val) (column_values rows h)"
    by (simp add: not_all_coercible)
  with ne show ?thesis by (simp add: getColumnStatistics_def Let_def)
qed

lemma stats_cases:
  "(column_values rows h = [] \<and> getColumnStatistics rows h = None)
   \<or> (column_values rows h \<noteq> [] \<and> list_all (\<lambda>val. \<not> isNaN val) (column_values rows h)
       \<and> is_numeric_result (getColumnStatistics rows h))
   \<or> (list_ex isNaN (column_values rows h) \<and> is_categorical_result (getColumnStatistics rows h))"
proof (cases "column_values rows h = []")
  case True
  then show ?thesis by (simp add: stats_null)
next
  case ne: False
  show ?thesis
  proof (cases "list_all (\<lambda>val. \<not> isNaN val) (column_values rows h)")
    case True
    with ne show ?thesis by (simp add: stats_numeric is_numeric_result_def)
  next
    case False
    then have "list_ex isNaN (column_values rows h)" by (simp add: not_all_coercible)
    then show ?thesis by (simp add: stats_categorical is_categorical_result_def)
  qed
qed

lemma numeric_result_D:
  assumes "getColumnStatistics rows h = Some (Numeric r)"
  shows "column_values rows h \<noteq> []"
    and "list_all (\<lambda>val. \<not> isNaN val) (column_values rows h)"
    and "r = \<lparr> min_n = Math_min (map Number (column_values rows h)),
               max_n = Math_max (map Number (column_values rows h)),
               average = js_div (foldl js_add (Finite 0) (map Number (column_values rows h)))
                           (Finite (of_nat (length (column_values rows h)))),
               sum_n = foldl js_add (Finite 0) (map Number (column_values rows h)),
               count_n = length (column_values rows h) \<rparr>"
proof -
  show ne: "column_values rows h \<noteq> []"
    using assms by (auto simp: stats_null)
  show all: "list_all (\<lambda>val. \<not> isNaN val) (column_values rows h)"
  proof (rule ccontr)
    assume "\<not> list_all (\<lambda>val. \<not> isNaN val) (column_values rows h)"
    then have "list_ex isNaN (column_values rows h)" by (simp add: not_all_coercible)
    from stats_categorical [OF this] assms show False by simp
  qed
  from stats_numeric [OF ne all] assms
  show "r = \<lparr> min_n = Math_min (map Number (column_values rows h)),
               max_n = Math_max (map Number (column_values rows h)),
               average = js_div (foldl js_add (Finite 0) (map Number (column_values rows h)))
                           (Finite (of_nat (length (column_values rows h)))),
               sum_n = foldl js_add (Finite 0) (map Number (column_values rows h)),
               count_n = length (column_values rows h) \<rparr>"
    by simp
qed



lemma engine_result:
  "getColumnStatistics_engine max_args rows h =
     (if list_all (\<lambda>val. \<not> isNaN val) (column_values rows h)
         \<and> max_args < length (column_values rows h)
      then Inl RangeError
      else Inr (getColumnStatistics rows h))"
  by (simp add: getColumnStatistics_engine_def getColumnStatistics_def spread_call_def Let_def)

lemma column_values_replicate:
  "v \<noteq> JUndefined \<Longrightarrow> column_values (replicate n [(c, v)]) c = replicate n v"
  by (simp add: column_values_def get_prop_def)

section \<open>Properties of the sheet normalizer\<close>

lemma process_sheet_fields:
  "sheetName (process_sheet name rows) = name"
  "headers (process_sheet name rows) = Object_keys (first_or_empty rows)"
  "data (process_sheet name rows) = rows"
  "rowCount (process_sheet name rows) = length rows"
  "columnCount (process_sheet name rows) = length (Object_keys (first_or_empty rows))"
  by (simp_all add: process_sheet_def Let_def)

lemma types_fold:
  "foldl (\<lambda>acc header. acc(header \<mapsto> f header)) m hs k
     = (if k \<in> set hs then Some (f k) else m k)"
  by (induction hs arbitrary: m) auto

lemma process_sheet_columnTypes:
  "columnTypes (process_sheet name rows) k
     = (if k \<in> set (Object_keys (first_or_empty rows))
        then Some (typeof (sample_value rows k)) else None)"
  by (simp add: process_sheet_def Let_def types_fold)

lemma map_sheets_Inr:
  "map_sheets sheet_to_json sheets names = Inr out \<Longrightarrow>
   list_all2 (\<lambda>name s. \<exists>rows. sheet_to_json (sheets name) = Inr rows \<and> s = process_sheet name rows)
     names out"
proof (induction names arbitrary: out)
  case Nil
  then show ?case by simp
next
  case (Cons name names)
  from Cons.prems obtain rows rest where r: "sheet_to_json (sheets name) = Inr rows"
    and m: "map_sheets sheet_to_json sheets names = Inr rest"
    and o: "out = process_sheet name rows # rest"
    by (auto split: sum.splits)
  from Cons.IH [OF m] r o show ?case by simp
qed

lemma map_sheets_Inl:
  "map_sheets sheet_to_json sheets names = Inl message \<Longrightarrow>
   \<exists>name\<in>set names. sheet_to_json (sheets name) = Inl message"
proof (induction names)
  case Nil
  then show ?case by simp
next
  case (Cons name names)
  then show ?case by (auto split: sum.splits)
qed

lemma map_sheets_all_Inr:
  "list_all (\<lambda>name. \<exists>rows. sheet_to_json (sheets name) = Inr rows) names \<Longrightarrow>
   \<exists>out. map_sheets sheet_to_json sheets names = Inr out"
proof (induction names)
  case Nil
  then show ?case by simp
next
  case (Cons name names)
  then show ?case by (auto split: sum.splits)
qed

lemma Success_D:
  assumes "processExcelFile xlsx_read sheet_to_json buffer = Success sheets n"
  shows "\<exists>wb. xlsx_read buffer = Inr wb \<and> n = length (SheetNames wb)
           \<and> map_sheets sheet_to_json (Sheets wb) (SheetNames wb) = Inr sheets"
  using assms by (auto simp: processExcelFile_def split: sum.splits)

lemma emitted_sheet:
  assumes "processExcelFile xlsx_read sheet_to_json buffer = Success sheets n"
    and "s \<in> set sheets"
  shows "\<exists>name rows. s = process_sheet name rows"
proof -
  from Success_D [OF assms(1)] obtain wb
    where "xlsx_read buffer = Inr wb"
      and "map_sheets sheet_to_json (Sheets wb) (SheetNames wb) = Inr sheets" by blast
  from map_sheets_Inr [OF this(2)]
  have l: "list_all2 (\<lambda>name s. \<exists>rows. s = process_sheet name rows) (SheetNames wb) sheets"
    by (rule list_all2_mono) blast
  from assms(2) obtain i where i: "i < length sheets" "s = sheets ! i"
    by (auto simp: in_set_conv_nth)
  from l i(1) have "\<exists>rows. sheets ! i = process_sheet (SheetNames wb ! i) rows"
    by (simp add: list_all2_conv_all_nth)
  with i(2) show ?thesis by blast
qed

lemma first_row_only:
  "first_or_empty rows = first_or_empty (take 1 rows)"
  "sample_value rows k = sample_value (take 1 rows) k"
  by (cases rows; simp add: first_or_empty_def sample_value_def)+

lemma sample_run:
  "processExcelFile sample_read sample_sheet_to_json [0x50, 0x4B]
     = Success [sample_people, sample_empty, sample_copy] 3"
  by (simp add: processExcelFile_def sample_read_def sample_sheet_to_json_def process_sheet_def
      Let_def first_or_empty_def Object_keys_def sample_value_def get_prop_def
      sample_people_def sample_empty_def sample_copy_def)

lemma null_iff_no_values:
  "(getColumnStatistics rows h = None \<longleftrightarrow> column_values rows h = [])
   \<and> (column_values rows h = [] \<longleftrightarrow> list_all (\<lambda>row. get_prop row h = JUndefined) rows)
   \<and> set (column_values rows h) = set (map (\<lambda>row. get_prop row h) rows) - {JUndefined}
   \<and> (column_values rows h \<noteq> [] \<longrightarrow>
        (\<exists>r. getColumnStatistics rows h = Some (Numeric r)
            \<and> count_n r = length (column_values rows h) \<and> 1 \<le> count_n r
            \<and> \<not> is_nan (min_n r) \<and> \<not> is_nan (max_n r))
        \<or> (\<exists>c. getColumnStatistics rows h = Some (Categorical c)
            \<and> count_c c = length (column_values rows h) \<and> 1 \<le> count_c c
            \<and> uniqueValues c \<noteq> [] \<and> type_c c = ''categorical''))"
proof (intro conjI impI)
  show "getColumnStatistics rows h = None \<longleftrightarrow> column_values rows h = []"
    by (simp add: getColumnStatistics_def Let_def)
next
  show "column_values rows h = [] \<longleftrightarrow> list_all (\<lambda>row. get_prop row h = JUndefined) rows"
    by (induction rows) (auto simp: column_values_def)
next
  show "set (column_values rows h) = set (map (\<lambda>row. get_prop row h) rows) - {JUndefined}"
    by (auto simp: column_values_def)
next
  assume ne: "column_values rows h \<noteq> []"
  let ?vs = "column_values rows h"
  let ?ns = "map Number ?vs"
  from ne have len: "1 \<le> length ?vs" by (cases ?vs) auto
  show "(\<exists>r. getColumnStatistics rows h = Some (Numeric r)
            \<and> count_n r = length ?vs \<and> 1 \<le> count_n r
            \<and> \<not> is_nan (min_n r) \<and> \<not> is_nan (max_n r))
        \<or> (\<exists>c. getColumnStatistics rows h = Some (Categorical c)
            \<and> count_c c = length ?vs \<and> 1 \<le> count_c c
            \<and> uniqueValues c \<noteq> [] \<and> type_c c = ''categorical'')"
  proof (cases "list_all (\<lambda>val. \<not> isNaN val) ?vs")
    case True
    from ne have nne: "?ns \<noteq> []" by simp
    from True have nn: "\<not> list_ex is_nan ?ns" by (simp add: numbers_not_nan)
    from Math_min_least [OF nne nn] have "Math_min ?ns \<in> set ?ns" by blast
    with nn have a: "\<not> is_nan (Math_min ?ns)" unfolding list_ex_iff by blast
    from Math_max_greatest [OF nne nn] have "Math_max ?ns \<in> set ?ns" by blast
    with nn have b: "\<not> is_nan (Math_max ?ns)" unfolding list_ex_iff by blast
    from ne True a b len show ?thesis by (simp add: stats_numeric)
  next
    case False
    then have ex: "list_ex isNaN ?vs" by (simp add: not_all_coercible)
    from ne have "set (Set_values ?vs) \<noteq> {}" by (simp add: Set_values_set)
    then have "Set_values ?vs \<noteq> []" by auto
    with ex len show ?thesis by (simp add: stats_categorical)
  qed
qed

section \<open>The claims\<close>

text \<open>
  Claim C1. The choice between the numeric and the categorical record is all-or-nothing.
  For a column with at least one value other than \<open>undefined\<close> (the only columns that
  are classified; the others give \<open>null\<close>), the numeric record is returned iff every such
  value is numeric-coercible, that is, \<open>isNaN\<close> is false of it. The categorical record is
  returned iff some value of the column is not coercible, so one such value among
  otherwise numeric values makes the whole column categorical. The column
  \<open>[1, "x", 3]\<close> gives the categorical record with count 3 and the unique values
  1, "x", 3.
\<close>

theorem classification_all_or_nothing:
  "(column_values rows h \<noteq> [] \<longrightarrow>
      (is_numeric_result (getColumnStatistics rows h)
         \<longleftrightarrow> list_all (\<lambda>val. \<not> isNaN val) (column_values rows h)))
   \<and> (is_categorical_result (getColumnStatistics rows h)
         \<longleftrightarrow> list_ex isNaN (column_values rows h))
   \<and> getColumnStatistics
        [[(''c'', JNum (Finite 1))], [(''c'', JStr ''x'')], [(''c'', JNum (Finite 3))]] ''c''
      = Some (Categorical
          \<lparr> uniqueValues = [JNum (Finite 1), JStr ''x'', JNum (Finite 3)],
            count_c = 3,
            type_c = ''categorical'' \<rparr>)"
proof (intro conjI impI)
  assume ne: "column_values rows h \<noteq> []"
  show "is_numeric_result (getColumnStatistics rows h)
          \<longleftrightarrow> list_all (\<lambda>val. \<not> isNaN val) (column_values rows h)"
  proof (cases "list_all (\<lambda>val. \<not> isNaN val) (column_values rows h)")
    case True
    with ne show ?thesis by (simp add: stats_numeric is_numeric_result_def)
  next
    case False
    then have "list_ex isNaN (column_values rows h)" by (simp add: not_all_coercible)
    with False show ?thesis by (simp add: stats_categorical is_numeric_result_def)
  qed
next
  show "is_categorical_result (getColumnStatistics rows h)
          \<longleftrightarrow> list_ex isNaN (column_values rows h)"
  proof (cases "list_ex isNaN (column_values rows h)")
    case True
    then show ?thesis by (simp add: stats_categorical is_categorical_result_def)
  next
    case False
    then have all: "list_all (\<lambda>val. \<not> isNaN val) (column_values rows h)"
      using not_all_coercible [of "column_values rows h"] by blast
    show ?thesis
    proof (cases "column_values rows h = []")
      case True
      with False show ?thesis by (simp add: stats_null is_categorical_result_def)
    next
      case ne: False
      with all False show ?thesis by (simp add: stats_numeric is_categorical_result_def)
    qed
  qed
next
  show "getColumnStatistics
        [[(''c'', JNum (Finite 1))], [(''c'', JStr ''x'')], [(''c'', JNum (Finite 3))]] ''c''
      = Some (Categorical
          \<lparr> uniqueValues = [JNum (Finite 1), JStr ''x'', JNum (Finite 3)],
            count_c = 3,
            type_c = ''categorical'' \<rparr>)"
    by code_simp
qed

theorem classification_all_or_nothing_witness:
  "column_values [[(''c'', JNum (Finite 1))], [(''c'', JStr ''2'')], [(''d'', JStr ''x'')]] ''c'' \<noteq> []
   \<and> list_all (\<lambda>val. \<not> isNaN val)
        (column_values [[(''c'', JNum (Finite 1))], [(''c'', JStr ''2'')], [(''d'', JStr ''x'')]] ''c'')
   \<and> is_numeric_result
        (getColumnStatistics [[(''c'', JNum (Finite 1))], [(''c'', JStr ''2'')], [(''d'', JStr ''x'')]] ''c'')"
proof -
  let ?rows = "[[(''c'', JNum (Finite 1))], [(''c'', JStr ''2'')], [(''d'', JStr ''x'')]]"
  have ne: "column_values ?rows ''c'' \<noteq> []" by code_simp
  have all: "list_all (\<lambda>val. \<not> isNaN val) (column_values ?rows ''c'')" by code_simp
  from classification_all_or_nothing [of ?rows "''c''"] ne all show ?thesis by blast
qed



text \<open>
  Claim C3 says that the result is \<open>null\<close> iff the column has no value other than
  \<open>undefined\<close>, that every other column gives a record, and that the function never
  raises. On an engine that accepts at most \<open>max_args\<close> arguments in a call, the
  function raises RangeError exactly when every value of the column is numeric-coercible
  and there are more than \<open>max_args\<close> of them: the numbers are spread into the
  arguments of \<open>Math.min\<close>. The result is \<open>null\<close> iff the column has no value, and a
  column of at most \<open>max_args\<close> values gives the result of \<open>getColumnStatistics\<close>.
  A column of 200000 cells holding 1 raises RangeError on every engine that accepts
  fewer than 200000 arguments.
\<close>

theorem raises_on_long_numeric_column:
  "(getColumnStatistics_engine max_args rows h = Inl RangeError
      \<longleftrightarrow> list_all (\<lambda>val. \<not> isNaN val) (column_values rows h)
          \<and> max_args < length (column_values rows h))
   \<and> (getColumnStatistics_engine max_args rows h = Inr None \<longleftrightarrow> column_values rows h = [])
   \<and> (length (column_values rows h) \<le> max_args \<longrightarrow>
        getColumnStatistics_engine max_args rows h = Inr (getColumnStatistics rows h))
   \<and> (max_args < 200000 \<longrightarrow>
        getColumnStatistics_engine max_args (replicate 200000 [(''c'', JNum (Finite 1))]) ''c''
          = Inl RangeError)"
proof (intro conjI impI)
  show "getColumnStatistics_engine max_args rows h = Inl RangeError
      \<longleftrightarrow> list_all (\<lambda>val. \<not> isNaN val) (column_values rows h)
          \<and> max_args < length (column_values rows h)"
    by (simp add: engine_result)
next
  have "getColumnStatistics rows h = None \<longleftrightarrow> column_values rows h = []"
    using null_iff_no_values [of rows h] by blast
  then show "getColumnStatistics_engine max_args rows h = Inr None \<longleftrightarrow> column_values rows h = []"
    by (auto simp: engine_result)
next
  assume "length (column_values rows h) \<le> max_args"
  then show "getColumnStatistics_engine max_args rows h = Inr (getColumnStatistics rows h)"
    by (simp add: engine_result)
next
  assume m: "max_args < 200000"
  have v: "column_values (replicate 200000 [(''c'', JNum (Finite 1))]) ''c''
      = replicate 200000 (JNum (Finite 1))"
    by (simp add: column_values_replicate)
  have n: "\<not> isNaN (JNum (Finite 1))" by (simp add: isNaN_def is_nan_def)
  from m n show "getColumnStatistics_engine max_args (replicate 200000 [(''c'', JNum (Finite 1))]) ''c''
      = Inl RangeError"
    by (simp add: engine_result v list_all_iff)
qed

theorem raises_on_long_numeric_column_witness:
  "getColumnStatistics_engine 125000 (replicate 200000 [(''c'', JNum (Finite 1))]) ''c''
     = Inl RangeError
   \<and> length (column_values [[(''c'', JNum (Finite 1))], [(''c'', JStr ''x'')]] ''c'') \<le> 125000
   \<and> getColumnStatistics_engine 125000 [[(''c'', JNum (Finite 1))], [(''c'', JStr ''x'')]] ''c''
     = Inr (Some (Categorical
         \<lparr> uniqueValues = [JNum (Finite 1), JStr ''x''], count_c = 2, type_c = ''categorical'' \<rparr>))"
proof -
  let ?rows = "[[(''c'', JNum (Finite 1))], [(''c'', JStr ''x'')]]"
  have m: "(125000::nat) < 200000" by simp
  from raises_on_long_numeric_column [of 125000 "[]" "[]"] m
  have 1: "getColumnStatistics_engine 125000 (replicate 200000 [(''c'', JNum (Finite 1))]) ''c''
     = Inl RangeError" by blast
  have vs: "column_values ?rows ''c'' = [JNum (Finite 1), JStr ''x'']" by code_simp
  then have l: "length (column_values ?rows ''c'') \<le> 125000" by simp
  have e: "getColumnStatistics ?rows ''c'' = Some (Categorical
         \<lparr> uniqueValues = [JNum (Finite 1), JStr ''x''], count_c = 2, type_c = ''categorical'' \<rparr>)"
    by code_simp
  from raises_on_long_numeric_column [of 125000 ?rows "''c''"] l
  have "getColumnStatistics_engine 125000 ?rows ''c'' = Inr (getColumnStatistics ?rows ''c'')"
    by blast
  with e have 2: "getColumnStatistics_engine 125000 ?rows ''c''
     = Inr (Some (Categorical
         \<lparr> uniqueValues = [JNum (Finite 1), JStr ''x''], count_c = 2, type_c = ''categorical'' \<rparr>))"
    by simp
  from 1 l 2 show ?thesis by blast
qed

text \<open>
  Claim C4. When the categorical record is returned, \<open>uniqueValues\<close> holds each raw
  (uncoerced) value of the column exactly once, \<open>count\<close> is the number of values other
  than \<open>undefined\<close> (not the number of unique values) and \<open>type\<close> is
  \<open>"categorical"\<close>. The column \<open>["a", "b", "a"]\<close> gives the unique values "a", "b" and
  count 3.
\<close>

theorem categorical_branch_statistics:
  "(getColumnStatistics rows h = Some (Categorical c) \<longrightarrow>
      set (uniqueValues c) = set (column_values rows h)
      \<and> distinct (uniqueValues c)
      \<and> count_c c = length (column_values rows h)
      \<and> type_c c = ''categorical'')
   \<and> getColumnStatistics [[(''c'', JStr ''a'')], [(''c'', JStr ''b'')], [(''c'', JStr ''a'')]] ''c''
      = Some (Categorical
          \<lparr> uniqueValues = [JStr ''a'', JStr ''b''], count_c = 3, type_c = ''categorical'' \<rparr>)"
proof (intro conjI impI)
  assume a: "getColumnStatistics rows h = Some (Categorical c)"
  then have "is_categorical_result (getColumnStatistics rows h)"
    by (simp add: is_categorical_result_def)
  with stats_cases [of rows h] have "list_ex isNaN (column_values rows h)"
    by (auto simp: is_categorical_result_def is_numeric_result_def split: option.splits stats.splits)
  from stats_categorical [OF this] a
  have c: "c = \<lparr> uniqueValues = Set_values (column_values rows h),
         count_c = length (column_values rows h),
         type_c = ''categorical'' \<rparr>" by simp
  show "set (uniqueValues c) = set (column_values rows h)" by (simp add: c Set_values_set)
  show "distinct (uniqueValues c)" by (simp add: c Set_values_distinct)
  show "count_c c = length (column_values rows h)" by (simp add: c)
  show "type_c c = ''categorical''" by (simp add: c)
next
  show "getColumnStatistics [[(''c'', JStr ''a'')], [(''c'', JStr ''b'')], [(''c'', JStr ''a'')]] ''c''
      = Some (Categorical
          \<lparr> uniqueValues = [JStr ''a'', JStr ''b''], count_c = 3, type_c = ''categorical'' \<rparr>)"
    by code_simp
qed

theorem categorical_branch_statistics_witness:
  "getColumnStatistics [[(''c'', JStr ''1'')], [(''c'', JNum (Finite 1))], [(''c'', JStr ''n/a'')], [(''d'', JNull)]] ''c''
     = Some (Categorical
          \<lparr> uniqueValues = [JStr ''1'', JNum (Finite 1), JStr ''n/a''], count_c = 3,
            type_c = ''categorical'' \<rparr>)
   \<and> set [JStr ''1'', JNum (Finite 1), JStr ''n/a'']
       = set (column_values [[(''c'', JStr ''1'')], [(''c'', JNum (Finite 1))], [(''c'', JStr ''n/a'')], [(''d'', JNull)]] ''c'')
   \<and> length (column_values [[(''c'', JStr ''1'')], [(''c'', JNum (Finite 1))], [(''c'', JStr ''n/a'')], [(''d'', JNull)]] ''c'') = 3"
proof -
  let ?rows = "[[(''c'', JStr ''1'')], [(''c'', JNum (Finite 1))], [(''c'', JStr ''n/a'')], [(''d'', JNull)]]"
  let ?c = "\<lparr> uniqueValues = [JStr ''1'', JNum (Finite 1), JStr ''n/a''], count_c = 3,
            type_c = ''categorical'' \<rparr>"
  have e: "getColumnStatistics ?rows ''c'' = Some (Categorical ?c)" by code_simp
  from categorical_branch_statistics [of ?rows "''c''" ?c] e
  have "set (uniqueValues ?c) = set (column_values ?rows ''c'')
      \<and> count_c ?c = length (column_values ?rows ''c'')" by blast
  with e show ?thesis by simp
qed

text \<open>
  Claim C5. In every sheet of a successful result, \<open>rowCount\<close> is the length of the
  emitted \<open>data\<close> and \<open>columnCount\<close> is the length of the emitted \<open>headers\<close>, so
  recomputing the two counts from the emitted fields gives the emitted values.
\<close>

theorem counts_match_emitted_fields:
  "processExcelFile xlsx_read sheet_to_json buffer = Success sheets n \<longrightarrow>
     (\<forall>s\<in>set sheets. rowCount s = length (data s) \<and> columnCount s = length (headers s))"
proof (intro impI ballI)
  fix s
  assume "processExcelFile xlsx_read sheet_to_json buffer = Success sheets n" and "s \<in> set sheets"
  then obtain name rows where "s = process_sheet name rows" by (blast dest: emitted_sheet)
  then show "rowCount s = length (data s) \<and> columnCount s = length (headers s)"
    by (simp add: process_sheet_fields)
qed

theorem counts_match_emitted_fields_witness:
  "processExcelFile sample_read sample_sheet_to_json [0x50, 0x4B]
     = Success [sample_people, sample_empty, sample_copy] 3
   \<and> rowCount sample_people = length (data sample_people)
   \<and> columnCount sample_people = length (headers sample_people)
   \<and> rowCount sample_empty = length (data sample_empty)
   \<and> columnCount sample_empty = length (headers sample_empty)"
  using counts_match_emitted_fields
    [of sample_read sample_sheet_to_json "[0x50, 0x4B]" "[sample_people, sample_empty, sample_copy]" 3]
    sample_run
  by simp

text \<open>
  Claim C6. \<open>hasData\<close> is true iff there is a row, \<open>hasHeaders\<close> is true iff the first
  row has at least one key, and \<open>isConsistent\<close> is true iff every row has as many keys
  as the first row, which holds of every sequence of at most one row. On the empty
  sequence the result is \<open>{hasData: false, hasHeaders: false, isConsistent: true}\<close>.
\<close>

theorem validation_result:
  "hasData (validateExcelData rows) = (rows \<noteq> [])
   \<and> hasHeaders (validateExcelData rows)
       = (case rows of [] \<Rightarrow> False | r # _ \<Rightarrow> Object_keys r \<noteq> [])
   \<and> isConsistent (validateExcelData rows)
       = (\<forall>row\<in>set rows. length (Object_keys row) = length (Object_keys (first_or_empty rows)))
   \<and> (length rows \<le> 1 \<longrightarrow> isConsistent (validateExcelData rows))
   \<and> validateExcelData [] = \<lparr> hasData = False, hasHeaders = False, isConsistent = True \<rparr>"
proof (cases rows)
  case Nil
  then show ?thesis by (simp add: validateExcelData_def first_or_empty_def Object_keys_def)
next
  case (Cons r rest)
  show ?thesis
  proof (cases rest)
    case Nil
    with Cons show ?thesis
      by (simp add: validateExcelData_def first_or_empty_def Object_keys_def)
  next
    case (Cons r' rest')
    with \<open>rows = r # rest\<close> show ?thesis
      by (simp add: validateExcelData_def first_or_empty_def Object_keys_def Let_def list_all_iff)
  qed
qed

theorem validation_result_witness:
  "length [[(''a'', JNum (Finite 1))]] \<le> 1
   \<and> isConsistent (validateExcelData [[(''a'', JNum (Finite 1))]])
   \<and> isConsistent (validateExcelData
        [[(''a'', JNum (Finite 1)), (''b'', JNull)], [(''a'', JStr ''x''), (''c'', JBool False)]])
   \<and> \<not> isConsistent (validateExcelData
        [[(''a'', JNum (Finite 1)), (''b'', JNull)], [(''a'', JStr ''x''), (''c'', JBool False)],
         [(''a'', JNum (Finite 2))]])"
proof -
  have l: "length [[(''a'', JNum (Finite 1))]] \<le> 1" by simp
  have 1: "isConsistent (validateExcelData [[(''a'', JNum (Finite 1))]])"
    using validation_result [of "[[(''a'', JNum (Finite 1))]]"] l by blast
  have 2: "isConsistent (validateExcelData
        [[(''a'', JNum (Finite 1)), (''b'', JNull)], [(''a'', JStr ''x''), (''c'', JBool False)]])"
    using validation_result
      [of "[[(''a'', JNum (Finite 1)), (''b'', JNull)], [(''a'', JStr ''x''), (''c'', JBool False)]]"]
    by (simp add: first_or_empty_def Object_keys_def)
  have 3: "\<not> isConsistent (validateExcelData
        [[(''a'', JNum (Finite 1)), (''b'', JNull)], [(''a'', JStr ''x''), (''c'', JBool False)],
         [(''a'', JNum (Finite 2))]])"
    using validation_result
      [of "[[(''a'', JNum (Finite 1)), (''b'', JNull)], [(''a'', JStr ''x''), (''c'', JBool False)],
         [(''a'', JNum (Finite 2))]]"]
    by (simp add: first_or_empty_def Object_keys_def)
  from l 1 2 3 show ?thesis by blast
qed

text \<open>
  Claim C7. The result has one of two shapes and the function has no failing branch of
  its own. When the parser throws, the result is the failure shape with the parser's
  message, and the message of a failure is always the message of an error thrown by the
  library. When the library does not throw, the result is the success shape;
  \<open>totalSheets\<close> is the number of sheet names of the workbook, \<open>data\<close> has one
  normalized sheet per sheet name, in the same order, and a workbook with no sheet
  gives the success shape with empty \<open>data\<close> and \<open>totalSheets\<close> 0.
\<close>

theorem two_shapes:
  "(xlsx_read buffer = Inl message \<longrightarrow>
      processExcelFile xlsx_read sheet_to_json buffer = Failure message)
   \<and> (processExcelFile xlsx_read sheet_to_json buffer = Failure message \<longrightarrow>
        xlsx_read buffer = Inl message
        \<or> (\<exists>wb. xlsx_read buffer = Inr wb
              \<and> (\<exists>name\<in>set (SheetNames wb). sheet_to_json (Sheets wb name) = Inl message)))
   \<and> (xlsx_read buffer = Inr wb
        \<and> list_all (\<lambda>name. \<exists>rows. sheet_to_json (Sheets wb name) = Inr rows) (SheetNames wb) \<longrightarrow>
        (\<exists>sheets. processExcelFile xlsx_read sheet_to_json buffer
                    = Success sheets (length (SheetNames wb))))
   \<and> (xlsx_read buffer = Inr wb \<and> SheetNames wb = [] \<longrightarrow>
        processExcelFile xlsx_read sheet_to_json buffer = Success [] 0)
   \<and> (processExcelFile xlsx_read sheet_to_json buffer = Success sheets n \<longrightarrow>
        (\<exists>wb. xlsx_read buffer = Inr wb
           \<and> n = length (SheetNames wb)
           \<and> length sheets = n
           \<and> map sheetName sheets = SheetNames wb
           \<and> list_all2 (\<lambda>name s. \<exists>rows. sheet_to_json (Sheets wb name) = Inr rows
                                   \<and> s = process_sheet name rows)
               (SheetNames wb) sheets))"
proof (intro conjI impI)
  assume "xlsx_read buffer = Inl message"
  then show "processExcelFile xlsx_read sheet_to_json buffer = Failure message"
    by (simp add: processExcelFile_def)
next
  assume "processExcelFile xlsx_read sheet_to_json buffer = Failure message"
  then show "xlsx_read buffer = Inl message
        \<or> (\<exists>wb. xlsx_read buffer = Inr wb
              \<and> (\<exists>name\<in>set (SheetNames wb). sheet_to_json (Sheets wb name) = Inl message))"
    by (auto simp: processExcelFile_def split: sum.splits dest: map_sheets_Inl)
next
  assume a: "xlsx_read buffer = Inr wb
        \<and> list_all (\<lambda>name. \<exists>rows. sheet_to_json (Sheets wb name) = Inr rows) (SheetNames wb)"
  then obtain out where "map_sheets sheet_to_json (Sheets wb) (SheetNames wb) = Inr out"
    using map_sheets_all_Inr [of sheet_to_json "Sheets wb" "SheetNames wb"] by blast
  with a show "\<exists>sheets. processExcelFile xlsx_read sheet_to_json buffer
                    = Success sheets (length (SheetNames wb))"
    by (simp add: processExcelFile_def)
next
  assume "xlsx_read buffer = Inr wb \<and> SheetNames wb = []"
  then show "processExcelFile xlsx_read sheet_to_json buffer = Success [] 0"
    by (simp add: processExcelFile_def)
next
  assume "processExcelFile xlsx_read sheet_to_json buffer = Success sheets n"
  from Success_D [OF this] obtain wb' where r: "xlsx_read buffer = Inr wb'"
    and n: "n = length (SheetNames wb')"
    and m: "map_sheets sheet_to_json (Sheets wb') (SheetNames wb') = Inr sheets" by blast
  note l = map_sheets_Inr [OF m]
  from l have len: "length sheets = length (SheetNames wb')" by (simp add: list_all2_lengthD)
  from l have names: "map sheetName sheets = SheetNames wb'"
    by (auto simp: list_all2_conv_all_nth process_sheet_fields intro!: nth_equalityI)
  from r n len names l
  show "\<exists>wb. xlsx_read buffer = Inr wb
           \<and> n = length (SheetNames wb)
           \<and> length sheets = n
           \<and> map sheetName sheets = SheetNames wb
           \<and> list_all2 (\<lambda>name s. \<exists>rows. sheet_to_json (Sheets wb name) = Inr rows
                                   \<and> s = process_sheet name rows)
               (SheetNames wb) sheets"
    by auto
qed

theorem two_shapes_witness:
  "sample_read [] = Inl ''File is corrupted''
   \<and> processExcelFile sample_read sample_sheet_to_json [] = Failure ''File is corrupted''
   \<and> processExcelFile sample_read sample_sheet_to_json [0x00] = Success [] 0
   \<and> (\<exists>sheets. processExcelFile sample_read sample_sheet_to_json [0x50, 0x4B] = Success sheets 3)
   \<and> processExcelFile sample_read sample_sheet_to_json [0x50, 0x4B]
       = Success [sample_people, sample_empty, sample_copy] 3
   \<and> length [sample_people, sample_empty, sample_copy] = 3
   \<and> map sheetName [sample_people, sample_empty, sample_copy] = [''People'', ''Empty'', ''Copy'']"
proof -
  let ?wb = "\<lparr> SheetNames = [''People'', ''Empty'', ''Copy''],
               Sheets = [''People'' \<mapsto> 0, ''Empty'' \<mapsto> 1, ''Copy'' \<mapsto> (2::nat)] \<rparr>"
  let ?none = "\<lparr> SheetNames = [], Sheets = (Map.empty :: string \<rightharpoonup> nat) \<rparr>"
  have r: "sample_read [] = Inl ''File is corrupted''" by (simp add: sample_read_def)
  have f: "processExcelFile sample_read sample_sheet_to_json [] = Failure ''File is corrupted''"
    using two_shapes [where xlsx_read = sample_read and buffer = "[]"
        and message = "''File is corrupted''" and sheet_to_json = sample_sheet_to_json] r
    by blast
  have z: "sample_read [0x00] = Inr ?none \<and> SheetNames ?none = []"
    by (simp add: sample_read_def)
  have e: "processExcelFile sample_read sample_sheet_to_json [0x00] = Success [] 0"
    using two_shapes [where xlsx_read = sample_read and buffer = "[0x00]"
        and sheet_to_json = sample_sheet_to_json and wb = ?none] z
    by blast
  have w: "sample_read [0x50, 0x4B] = Inr ?wb" by (simp add: sample_read_def)
  have a: "list_all (\<lambda>name. \<exists>rows. sample_sheet_to_json (Sheets ?wb name) = Inr rows)
      (SheetNames ?wb)"
    by (simp add: sample_sheet_to_json_def)
  have s: "\<exists>sheets. processExcelFile sample_read sample_sheet_to_json [0x50, 0x4B]
      = Success sheets (length (SheetNames ?wb))"
    using two_shapes [where xlsx_read = sample_read and buffer = "[0x50, 0x4B]"
        and sheet_to_json = sample_sheet_to_json and wb = ?wb] w a
    by blast
  have "length (SheetNames ?wb) = 3" by simp
  with s have s': "\<exists>sheets. processExcelFile sample_read sample_sheet_to_json [0x50, 0x4B]
      = Success sheets 3" by (simp only:)
  from two_shapes [where xlsx_read = sample_read and buffer = "[0x50, 0x4B]"
        and sheet_to_json = sample_sheet_to_json
        and sheets = "[sample_people, sample_empty, sample_copy]" and n = 3] sample_run
  obtain wb where "sample_read [0x50, 0x4B] = Inr wb"
    and "length [sample_people, sample_empty, sample_copy] = 3"
    and "map sheetName [sample_people, sample_empty, sample_copy] = SheetNames wb"
    by blast
  with w have "length [sample_people, sample_empty, sample_copy] = 3
    \<and> map sheetName [sample_people, sample_empty, sample_copy] = [''People'', ''Empty'', ''Copy'']"
    by simp
  with r f e s' sample_run show ?thesis by blast
qed

text \<open>
  Claim C8. In every sheet of a successful result, \<open>headers\<close> is the ordered list of the
  keys of the first row (empty when the sheet has no row), and \<open>columnTypes\<close> maps
  exactly these headers, each to the \<open>typeof\<close> tag of the first row's value at that
  header. Later rows are not consulted: two emitted sheets whose data agree on the
  first row (or are both empty) have the same \<open>headers\<close> and \<open>columnTypes\<close>.
\<close>

theorem headers_and_types_from_first_row:
  "(processExcelFile xlsx_read sheet_to_json buffer = Success sheets n \<and> s \<in> set sheets \<longrightarrow>
      (case data s of
         [] \<Rightarrow> headers s = [] \<and> columnTypes s = Map.empty
       | r # _ \<Rightarrow>
           headers s = Object_keys r
           \<and> (\<forall>k. columnTypes s k
                  = (if k \<in> set (Object_keys r) then Some (typeof (get_prop r k)) else None))))
   \<and> (processExcelFile xlsx_read sheet_to_json buffer = Success sheets n \<and> s \<in> set sheets
      \<and> processExcelFile xlsx_read' sheet_to_json' buffer' = Success sheets' n' \<and> s' \<in> set sheets'
      \<and> take 1 (data s) = take 1 (data s') \<longrightarrow>
        headers s = headers s' \<and> columnTypes s = columnTypes s')"
proof (intro conjI impI)
  assume "processExcelFile xlsx_read sheet_to_json buffer = Success sheets n \<and> s \<in> set sheets"
  then obtain name rows where s: "s = process_sheet name rows" by (blast dest: emitted_sheet)
  show "case data s of
         [] \<Rightarrow> headers s = [] \<and> columnTypes s = Map.empty
       | r # _ \<Rightarrow>
           headers s = Object_keys r
           \<and> (\<forall>k. columnTypes s k
                  = (if k \<in> set (Object_keys r) then Some (typeof (get_prop r k)) else None))"
  proof (cases rows)
    case Nil
    have "columnTypes (process_sheet name []) = Map.empty"
      by (rule ext) (simp add: process_sheet_columnTypes first_or_empty_def Object_keys_def)
    with Nil s show ?thesis
      by (simp add: process_sheet_fields first_or_empty_def Object_keys_def)
  next
    case (Cons r rest)
    with s show ?thesis
      by (simp add: process_sheet_fields process_sheet_columnTypes first_or_empty_def
          sample_value_def)
  qed
next
  assume a: "processExcelFile xlsx_read sheet_to_json buffer = Success sheets n \<and> s \<in> set sheets
      \<and> processExcelFile xlsx_read' sheet_to_json' buffer' = Success sheets' n' \<and> s' \<in> set sheets'
      \<and> take 1 (data s) = take 1 (data s')"
  then obtain name rows where s: "s = process_sheet name rows" by (blast dest: emitted_sheet)
  from a obtain name' rows' where s': "s' = process_sheet name' rows'"
    by (blast dest: emitted_sheet)
  from a s s' have t: "take 1 rows = take 1 rows'" by (simp add: process_sheet_fields)
  have f: "first_or_empty rows = first_or_empty rows'"
    using first_row_only(1) [of rows] first_row_only(1) [of rows'] t by simp
  have v: "sample_value rows k = sample_value rows' k" for k
    using first_row_only(2) [of rows k] first_row_only(2) [of rows' k] t by simp
  show "headers s = headers s'" by (simp add: s s' process_sheet_fields f)
  show "columnTypes s = columnTypes s'"
    by (rule ext) (simp add: s s' process_sheet_columnTypes f v)
qed

theorem headers_and_types_from_first_row_witness:
  "processExcelFile sample_read sample_sheet_to_json [0x50, 0x4B]
     = Success [sample_people, sample_empty, sample_copy] 3
   \<and> headers sample_people = [''name'', ''age'']
   \<and> columnTypes sample_people ''name'' = Some ''string''
   \<and> columnTypes sample_people ''age'' = Some ''number''
   \<and> take 1 (data sample_people) = take 1 (data sample_copy)
   \<and> data sample_people \<noteq> data sample_copy
   \<and> headers sample_people = headers sample_copy
   \<and> columnTypes sample_people = columnTypes sample_copy"
proof -
  note t = headers_and_types_from_first_row
    [where xlsx_read = sample_read and sheet_to_json = sample_sheet_to_json
      and buffer = "[0x50, 0x4B]" and sheets = "[sample_people, sample_empty, sample_copy]"
      and n = 3 and s = sample_people
      and xlsx_read' = sample_read and sheet_to_json' = sample_sheet_to_json
      and buffer' = "[0x50, 0x4B]" and sheets' = "[sample_people, sample_empty, sample_copy]"
      and n' = 3 and s' = sample_copy]
  have d: "data sample_people
      = [[(''name'', JStr ''Ann''), (''age'', JNum (Finite 30))], [(''name'', JStr ''Bob'')]]"
    by (simp add: sample_people_def)
  have tk: "take 1 (data sample_people) = take 1 (data sample_copy)"
    by (simp add: sample_people_def sample_copy_def)
  have ne: "data sample_people \<noteq> data sample_copy"
    by (simp add: sample_people_def sample_copy_def)
  from t sample_run have "case data sample_people of
         [] \<Rightarrow> headers sample_people = [] \<and> columnTypes sample_people = Map.empty
       | r # _ \<Rightarrow>
           headers sample_people = Object_keys r
           \<and> (\<forall>k. columnTypes sample_people k
                  = (if k \<in> set (Object_keys r) then Some (typeof (get_prop r k)) else None))"
    by simp
  then have h: "headers sample_people = [''name'', ''age'']"
    and c1: "columnTypes sample_people ''name'' = Some ''string''"
    and c2: "columnTypes sample_people ''age'' = Some ''number''"
    by (simp_all add: d Object_keys_def get_prop_def)
  from t sample_run tk have "headers sample_people = headers sample_copy
      \<and> columnTypes sample_people = columnTypes sample_copy"
    by simp
  with sample_run h c1 c2 tk ne show ?thesis by blast
qed



text \<open>
  The relations of claim C10 between the average and the other fields fail. On the column
  \<open>["0.1", "0.1", "0.1"]\<close> the sum is 0.30000000000000004 and the average
  0.10000000000000002, above the maximum 0.1, and three times the average is not the
  sum. On \<open>["0.7", "0.7", "0.7"]\<close> the average 0.6999999999999998 is below the minimum
  0.7. On \<open>["Infinity", "-Infinity"]\<close>, two numeric-coercible strings, the sum and the
  average are NaN.
\<close>

theorem numeric_relations_counterexample:
  "getColumnStatistics [[(''c'', JStr ''0.1'')], [(''c'', JStr ''0.1'')], [(''c'', JStr ''0.1'')]] ''c''
     = Some (Numeric
         \<lparr> min_n = Finite (3602879701896397 / 36028797018963968),
           max_n = Finite (3602879701896397 / 36028797018963968),
           average = Finite (7205759403792795 / 72057594037927936),
           sum_n = Finite (1351079888211149 / 4503599627370496),
           count_n = 3 \<rparr>)
   \<and> \<not> js_le (Finite (7205759403792795 / 72057594037927936))
           (Finite (3602879701896397 / 36028797018963968))
   \<and> (7205759403792795 / 72057594037927936 :: rat) * 3 \<noteq> 1351079888211149 / 4503599627370496
   \<and> getColumnStatistics [[(''c'', JStr ''0.7'')], [(''c'', JStr ''0.7'')], [(''c'', JStr ''0.7'')]] ''c''
     = Some (Numeric
         \<lparr> min_n = Finite (3152519739159347 / 4503599627370496),
           max_n = Finite (3152519739159347 / 4503599627370496),
           average = Finite (6305039478318693 / 9007199254740992),
           sum_n = Finite (1182194902184755 / 562949953421312),
           count_n = 3 \<rparr>)
   \<and> \<not> js_le (Finite (3152519739159347 / 4503599627370496))
           (Finite (6305039478318693 / 9007199254740992))
   \<and> getColumnStatistics [[(''c'', JStr ''Infinity'')], [(''c'', JStr ''-Infinity'')]] ''c''
     = Some (Numeric
         \<lparr> min_n = NegInf, max_n = PosInf, average = NaN, sum_n = NaN, count_n = 2 \<rparr>)
   \<and> \<not> js_le NegInf NaN"
proof (intro conjI)
  show "getColumnStatistics [[(''c'', JStr ''0.1'')], [(''c'', JStr ''0.1'')], [(''c'', JStr ''0.1'')]] ''c''
     = Some (Numeric
         \<lparr> min_n = Finite (3602879701896397 / 36028797018963968),
           max_n = Finite (3602879701896397 / 36028797018963968),
           average = Finite (7205759403792795 / 72057594037927936),
           sum_n = Finite (1351079888211149 / 4503599627370496),
           count_n = 3 \<rparr>)"
    by code_simp
  show "getColumnStatistics [[(''c'', JStr ''0.7'')], [(''c'', JStr ''0.7'')], [(''c'', JStr ''0.7'')]] ''c''
     = Some (Numeric
         \<lparr> min_n = Finite (3152519739159347 / 4503599627370496),
           max_n = Finite (3152519739159347 / 4503599627370496),
           average = Finite (6305039478318693 / 9007199254740992),
           sum_n = Finite (1182194902184755 / 562949953421312),
           count_n = 3 \<rparr>)"
    by code_simp
  show "getColumnStatistics [[(''c'', JStr ''Infinity'')], [(''c'', JStr ''-Infinity'')]] ''c''
     = Some (Numeric
         \<lparr> min_n = NegInf, max_n = PosInf, average = NaN, sum_n = NaN, count_n = 2 \<rparr>)"
    by code_simp
qed simp_all

text \<open>
  Claim C10, amended. Whenever the numeric record is returned, its count is at least one
  and is the number of values, \<open>min\<close> and \<open>max\<close> are each one of the coerced values,
  and \<open>min <= max\<close>. Nothing relates the average to \<open>min\<close>, \<open>max\<close> or the sum
  beyond its being the rounded quotient of the sum by the count.
\<close>

theorem numeric_relations:
  "getColumnStatistics rows h = Some (Numeric r) \<longrightarrow>
     1 \<le> count_n r
     \<and> count_n r = length (column_values rows h)
     \<and> min_n r \<in> set (map Number (column_values rows h))
     \<and> max_n r \<in> set (map Number (column_values rows h))
     \<and> js_le (min_n r) (max_n r)"
proof
  assume a: "getColumnStatistics rows h = Some (Numeric r)"
  let ?ns = "map Number (column_values rows h)"
  note d = numeric_result_D [OF a]
  from d(1) have ne: "?ns \<noteq> []" by simp
  from d(2) have nn: "\<not> list_ex is_nan ?ns" by (rule numbers_not_nan)
  from d(1) have len: "1 \<le> length (column_values rows h)" by (cases "column_values rows h") auto
  have 1: "1 \<le> count_n r" "count_n r = length (column_values rows h)"
    using len by (simp_all add: d(3))
  from Math_min_least [OF ne nn] have mn: "Math_min ?ns \<in> set ?ns"
    and le: "list_all (js_le (Math_min ?ns)) ?ns" by blast+
  from Math_max_greatest [OF ne nn] have mx: "Math_max ?ns \<in> set ?ns" by blast
  from le mx have "js_le (Math_min ?ns) (Math_max ?ns)" unfolding list_all_iff by blast
  with 1 mn mx show "1 \<le> count_n r
     \<and> count_n r = length (column_values rows h)
     \<and> min_n r \<in> set ?ns
     \<and> max_n r \<in> set ?ns
     \<and> js_le (min_n r) (max_n r)"
    by (simp add: d(3))
qed

theorem numeric_relations_witness:
  "getColumnStatistics [[(''c'', JStr ''Infinity'')], [(''c'', JNum (Finite 1))]] ''c''
     = Some (Numeric
         \<lparr> min_n = Finite 1, max_n = PosInf, average = PosInf, sum_n = PosInf, count_n = 2 \<rparr>)
   \<and> map Number (column_values [[(''c'', JStr ''Infinity'')], [(''c'', JNum (Finite 1))]] ''c'')
       = [PosInf, Finite 1]
   \<and> (1::nat) \<le> 2 \<and> Finite 1 \<in> set [PosInf, Finite 1] \<and> PosInf \<in> set [PosInf, Finite 1]
   \<and> js_le (Finite 1) PosInf"
proof -
  let ?rows = "[[(''c'', JStr ''Infinity'')], [(''c'', JNum (Finite 1))]]"
  let ?r = "\<lparr> min_n = Finite 1, max_n = PosInf, average = PosInf, sum_n = PosInf, count_n = 2 \<rparr>"
  have e: "getColumnStatistics ?rows ''c'' = Some (Numeric ?r)" by code_simp
  have ns: "map Number (column_values ?rows ''c'') = [PosInf, Finite 1]" by code_simp
  from numeric_relations [of ?rows "''c''" ?r] e
  have "1 \<le> count_n ?r
     \<and> min_n ?r \<in> set (map Number (column_values ?rows ''c''))
     \<and> max_n ?r \<in> set (map Number (column_values ?rows ''c''))
     \<and> js_le (min_n ?r) (max_n ?r)" by blast
  then have "(1::nat) \<le> 2 \<and> Finite 1 \<in> set [PosInf, Finite 1] \<and> PosInf \<in> set [PosInf, Finite 1]
     \<and> js_le (Finite 1) PosInf"
    by (simp only: ns numeric_stats.simps)
  with e ns show ?thesis by blast
qed

end
